theory Spec2Isabelle
  imports Complex_Main
begin

section \<open>Numbers\<close>

text \<open>
  The program computes on pandas columns of binary64 values. A value is modelled as
  one of the three special values of the format or a finite rational, and a rational
  stands for the binary64 value nearest to it. The series of the indicators are computed
  with exact arithmetic on the finite values (their rounding error and overflow are not
  modelled, and the two zeros are one value). Where a digit of the response is decided,
  in \<^verbatim>\<open>round(x, 2)\<close> and in the product under it, the operations are those of binary64
  (see \<open>binary64\<close> below). The closing prices themselves are finite: \<^verbatim>\<open>astype(float)\<close>
  reads them from the decimal strings of the provider, so a column of closes is a
  \<open>rat list\<close>.
\<close>

datatype fl = NaN | PInf | NInf | Fin rat

fun fl_neg :: "fl \<Rightarrow> fl" where
  "fl_neg NaN = NaN"
| "fl_neg PInf = NInf"
| "fl_neg NInf = PInf"
| "fl_neg (Fin a) = Fin (- a)"

fun fl_add :: "fl \<Rightarrow> fl \<Rightarrow> fl" where
  "fl_add NaN _ = NaN"
| "fl_add _ NaN = NaN"
| "fl_add (Fin a) (Fin b) = Fin (a + b)"
| "fl_add PInf NInf = NaN"
| "fl_add NInf PInf = NaN"
| "fl_add PInf _ = PInf"
| "fl_add NInf _ = NInf"
| "fl_add (Fin a) PInf = PInf"
| "fl_add (Fin a) NInf = NInf"

definition fl_sub :: "fl \<Rightarrow> fl \<Rightarrow> fl" where
  "fl_sub a b = fl_add a (fl_neg b)"

text \<open>
  Division of numpy arrays raises nothing: a non-zero value over zero is an infinity,
  zero over zero is NaN. With one zero only, the infinity takes the sign of the
  numerator.
\<close>

fun fl_div :: "fl \<Rightarrow> fl \<Rightarrow> fl" where
  "fl_div NaN _ = NaN"
| "fl_div _ NaN = NaN"
| "fl_div (Fin a) (Fin b) =
     (if b \<noteq> 0 then Fin (a / b)
      else if a = 0 then NaN
      else if 0 < a then PInf else NInf)"
| "fl_div (Fin a) PInf = Fin 0"
| "fl_div (Fin a) NInf = Fin 0"
| "fl_div PInf (Fin b) = (if 0 \<le> b then PInf else NInf)"
| "fl_div NInf (Fin b) = (if 0 \<le> b then NInf else PInf)"
| "fl_div PInf _ = NaN"
| "fl_div NInf _ = NaN"

text \<open>Comparison: every comparison with NaN is false.\<close>

fun fl_less :: "fl \<Rightarrow> fl \<Rightarrow> bool" where
  "fl_less NaN _ = False"
| "fl_less _ NaN = False"
| "fl_less (Fin a) (Fin b) = (a < b)"
| "fl_less NInf NInf = False"
| "fl_less NInf _ = True"
| "fl_less _ PInf = True"
| "fl_less _ _ = False"

text \<open>
  Rounding a rational to the nearest integer, ties to the even one (\<^verbatim>\<open>rint\<close>).
\<close>

definition rint :: "rat \<Rightarrow> int" where
  "rint x =
     (let f = \<lfloor>x\<rfloor>; d = x - of_int f
      in if d < 1 / 2 then f
         else if 1 / 2 < d then f + 1
         else if even f then f else f + 1)"

text \<open>
  The binary64 value nearest to a rational, ties to the even significand: with
  \<open>2 ^ e \<le> \<bar>x\<bar> < 2 ^ (e + 1)\<close> the values of the format around \<open>x\<close> are the multiples
  of \<open>2 ^ (e - 52)\<close>. The range of the exponent is not modelled (no overflow, no
  subnormal values). \<open>bitlen\<close> is the number of binary digits of a positive integer and
  \<open>binade\<close> the exponent \<open>e\<close>.
\<close>

function bitlen :: "int \<Rightarrow> int" where
  "bitlen n = (if 0 < n then 1 + bitlen (n div 2) else 0)"
  by pat_completeness auto
termination
  by (relation "measure nat") auto

definition pow2 :: "int \<Rightarrow> rat" where
  "pow2 e = (if 0 \<le> e then 2 ^ nat e else 1 / 2 ^ nat (- e))"

definition binade :: "rat \<Rightarrow> int" where
  "binade x =
     (let (p, q) = quotient_of \<bar>x\<bar>;
          d = bitlen p - bitlen q
      in if pow2 d \<le> \<bar>x\<bar> then d else d - 1)"

definition binary64 :: "rat \<Rightarrow> rat" where
  "binary64 x =
     (if x = 0 then 0
      else let u = pow2 (binade x - 52) in of_int (rint (x / u)) * u)"

text \<open>
  The product of two floats: the exact product of the two binary64 values, rounded to
  binary64. A literal such as \<^verbatim>\<open>0.97\<close> is the binary64 value nearest to it.
\<close>

definition fmul :: "rat \<Rightarrow> rat \<Rightarrow> rat" where
  "fmul a b = binary64 (binary64 a * binary64 b)"

text \<open>
  \<^verbatim>\<open>round(x, 2)\<close> on a numpy float is numpy's rounding: the float product with 100,
  \<^verbatim>\<open>rint\<close> of it, and the quotient by 100. The quotient is the binary64 value nearest
  to \<open>n / 100\<close>; it is kept as \<open>n / 100\<close>, the number it is written as in the response.
\<close>

definition round2 :: "rat \<Rightarrow> rat" where
  "round2 x = of_int (rint (fmul x 100)) / 100"

fun fl_round2 :: "fl \<Rightarrow> fl" where
  "fl_round2 (Fin a) = Fin (round2 a)"
| "fl_round2 x = x"

section \<open>Indicators\<close>

subsection \<open>The pandas operations that \<^verbatim>\<open>calculate_rsi\<close> uses\<close>

text \<open>\<^verbatim>\<open>Series.diff()\<close>: the first position has no predecessor and is NaN.\<close>

fun diff :: "rat list \<Rightarrow> fl list" where
  "diff [] = []"
| "diff (x # xs) = NaN # map2 (\<lambda>a b. Fin (b - a)) (x # xs) xs"

text \<open>\<^verbatim>\<open>clip(lower=0)\<close> and \<^verbatim>\<open>clip(upper=0)\<close> leave NaN as it is.\<close>

fun clip_lower :: "rat \<Rightarrow> fl \<Rightarrow> fl" where
  "clip_lower l NaN = NaN"
| "clip_lower l PInf = PInf"
| "clip_lower l NInf = Fin l"
| "clip_lower l (Fin a) = Fin (max a l)"

fun clip_upper :: "rat \<Rightarrow> fl \<Rightarrow> fl" where
  "clip_upper u NaN = NaN"
| "clip_upper u PInf = Fin u"
| "clip_upper u NInf = NInf"
| "clip_upper u (Fin a) = Fin (min a u)"

text \<open>
  \<^verbatim>\<open>rolling(period).mean()\<close>: the window at position \<open>i\<close> holds the positions
  \<open>i - period + 1 .. i\<close> that exist; \<open>min_periods\<close> defaults to the window size, and the
  observations of a window are its finite values (pandas takes NaN and the
  infinities as missing). With fewer than \<open>period\<close> observations the mean is NaN.
\<close>

fun observations :: "fl list \<Rightarrow> rat list" where
  "observations [] = []"
| "observations (Fin a # xs) = a # observations xs"
| "observations (_ # xs) = observations xs"

definition window :: "nat \<Rightarrow> fl list \<Rightarrow> nat \<Rightarrow> fl list" where
  "window period xs i = drop (Suc i - period) (take (Suc i) xs)"

definition window_mean :: "nat \<Rightarrow> fl list \<Rightarrow> fl" where
  "window_mean period w =
     (let obs = observations w
      in if 0 < period \<and> period \<le> length obs
         then Fin (sum_list obs / of_nat (length obs)) else NaN)"

definition rolling_mean :: "nat \<Rightarrow> fl list \<Rightarrow> fl list" where
  "rolling_mean period xs = map (\<lambda>i. window_mean period (window period xs i)) [0..<length xs]"

fun fillna :: "rat \<Rightarrow> fl \<Rightarrow> fl" where
  "fillna v NaN = Fin v"
| "fillna v x = x"

subsection \<open>\<^verbatim>\<open>calculate_rsi\<close>, one definition for each of its local variables\<close>

definition rsi_delta :: "rat list \<Rightarrow> fl list" where
  "rsi_delta series = diff series"

definition rsi_gain :: "rat list \<Rightarrow> fl list" where
  "rsi_gain series = map (clip_lower 0) (rsi_delta series)"

definition rsi_loss :: "rat list \<Rightarrow> fl list" where
  "rsi_loss series = map (\<lambda>d. fl_neg (clip_upper 0 d)) (rsi_delta series)"

definition avg_gain :: "rat list \<Rightarrow> nat \<Rightarrow> fl list" where
  "avg_gain series period = rolling_mean period (rsi_gain series)"

definition avg_loss :: "rat list \<Rightarrow> nat \<Rightarrow> fl list" where
  "avg_loss series period = rolling_mean period (rsi_loss series)"

definition rs :: "rat list \<Rightarrow> nat \<Rightarrow> fl list" where
  "rs series period = map2 fl_div (avg_gain series period) (avg_loss series period)"

definition rsi_of_rs :: "fl \<Rightarrow> fl" where
  "rsi_of_rs r = fl_sub (Fin 100) (fl_div (Fin 100) (fl_add (Fin 1) r))"

definition calculate_rsi :: "rat list \<Rightarrow> nat \<Rightarrow> fl list" where
  "calculate_rsi series period = map (fillna 50) (map rsi_of_rs (rs series period))"

subsection \<open>The exponential moving average\<close>

text \<open>
  \<^verbatim>\<open>ewm(span=span, adjust=False).mean()\<close> on a column without missing values: pandas
  starts from the first value and then weights the previous mean with \<open>1 - \<alpha>\<close> and the
  current value with \<open>\<alpha>\<close>, where \<open>\<alpha> = 2 / (span + 1)\<close>.
\<close>

definition ewm_alpha :: "nat \<Rightarrow> rat" where
  "ewm_alpha spn = 2 / (of_nat spn + 1)"

fun ewm_from :: "rat \<Rightarrow> rat \<Rightarrow> rat list \<Rightarrow> rat list" where
  "ewm_from a weighted [] = []"
| "ewm_from a weighted (cur # xs) =
     (let weighted' = (1 - a) * weighted + a * cur in weighted' # ewm_from a weighted' xs)"

fun ewm_mean :: "nat \<Rightarrow> rat list \<Rightarrow> rat list" where
  "ewm_mean spn [] = []"
| "ewm_mean spn (x # xs) = x # ewm_from (ewm_alpha spn) x xs"

section \<open>Fetching the candles\<close>

definition BINANCE_URLS :: "string list" where
  "BINANCE_URLS =
     [''https://api.binance.com/api/v3/klines'', ''https://api.binance.us/api/v3/klines'']"

definition ALLOWED_INTERVALS :: "string list" where
  "ALLOWED_INTERVALS = [''5m'', ''15m'', ''1h'', ''1d'']"

text \<open>One call of \<^verbatim>\<open>requests.get\<close>, with everything the program passes to it.\<close>

record request =
  req_url :: string
  req_symbol :: string
  req_interval :: string
  req_limit :: int
  req_user_agent :: string
  req_timeout :: nat

text \<open>
  What a call can come back with. \<open>Raised\<close> is an exception of \<^verbatim>\<open>requests.get\<close>
  itself (with its text). A response has a status code and a body; of the body the
  program sees whether \<^verbatim>\<open>res.json()\<close> raises, whether the value is a list, and
  whether \<^verbatim>\<open>pd.DataFrame(data, columns=...)\<close> and \<^verbatim>\<open>astype(float)\<close> accept the list
  or raise. A list they accept is kept as its column of closing prices, the only column
  read afterwards.
\<close>

datatype body = Not_json string | Not_list | Bad_rows string | Candles "rat list"

datatype reply = Raised string | Response nat body

text \<open>The three texts that \<^verbatim>\<open>last_error\<close> can hold.\<close>

datatype endpoint_error =
  Status_error string nat | Invalid_data string | Exception_text string

datatype failure = HTTPException nat string | IndexError

record fetch_state =
  sent :: "request list"
  last_error :: "endpoint_error option"

definition request_for :: "string \<Rightarrow> string \<Rightarrow> string \<Rightarrow> int \<Rightarrow> request" where
  "request_for u symb iv lmt =
     \<lparr>req_url = u, req_symbol = symb, req_interval = iv, req_limit = lmt,
      req_user_agent = ''Mozilla/5.0'', req_timeout = 10\<rparr>"

fun try_urls ::
  "(request \<Rightarrow> reply) \<Rightarrow> string \<Rightarrow> string \<Rightarrow> int \<Rightarrow> string list \<Rightarrow> fetch_state
    \<Rightarrow> fetch_state \<times> rat list option" where
  "try_urls net symb iv lmt [] st = (st, None)"
| "try_urls net symb iv lmt (u # us) st =
     (let rq = request_for u symb iv lmt;
          st1 = st\<lparr>sent := sent st @ [rq]\<rparr>
      in case net rq of
           Raised e \<Rightarrow> try_urls net symb iv lmt us (st1\<lparr>last_error := Some (Exception_text e)\<rparr>)
         | Response code b \<Rightarrow>
             if code \<noteq> 200
             then try_urls net symb iv lmt us (st1\<lparr>last_error := Some (Status_error u code)\<rparr>)
             else (case b of
                     Not_json e \<Rightarrow>
                       try_urls net symb iv lmt us (st1\<lparr>last_error := Some (Exception_text e)\<rparr>)
                   | Not_list \<Rightarrow>
                       try_urls net symb iv lmt us (st1\<lparr>last_error := Some (Invalid_data u)\<rparr>)
                   | Bad_rows e \<Rightarrow>
                       try_urls net symb iv lmt us (st1\<lparr>last_error := Some (Exception_text e)\<rparr>)
                   | Candles closes \<Rightarrow> (st1, Some closes)))"

definition normalize_interval :: "string \<Rightarrow> string" where
  "normalize_interval iv = (if iv \<notin> set ALLOWED_INTERVALS then ''15m'' else iv)"

definition get_klines ::
  "(request \<Rightarrow> reply) \<Rightarrow> string \<Rightarrow> string \<Rightarrow> int \<Rightarrow> fetch_state \<times> (failure + rat list)" where
  "get_klines net symb iv lmt =
     (case try_urls net symb (normalize_interval iv) lmt BINANCE_URLS
             \<lparr>sent = [], last_error = None\<rparr> of
        (st, Some df) \<Rightarrow> (st, Inr df)
      | (st, None) \<Rightarrow> (st, Inl (HTTPException 500 ''Binance API error (all endpoints failed)'')))"

section \<open>The endpoint\<close>

text \<open>An f-string is kept as its pieces: the literal text and the numbers put into it.\<close>

datatype piece = Txt string | Val fl

definition generate_explanation :: "string \<Rightarrow> fl \<Rightarrow> fl \<Rightarrow> fl \<Rightarrow> string \<Rightarrow> piece list" where
  "generate_explanation tr rsi ema20 ema50 iv =
     (let tf = (if iv = ''1d'' then [Txt ''Daily timeframe''] else [Txt iv, Txt '' timeframe''])
      in if tr = ''Bullish''
         then tf @ [Txt '': EMA20 ('', Val ema20, Txt '') EMA50 ('', Val ema50,
                    Txt '') ke upar hai aur RSI '', Val rsi, Txt ''. Buyers strong.'']
         else if tr = ''Bearish''
         then tf @ [Txt '': EMA20 ('', Val ema20, Txt '') EMA50 ('', Val ema50,
                    Txt '') ke niche hai aur RSI '', Val rsi, Txt ''. Sellers dominate.'']
         else tf @ [Txt '': EMA20 aur EMA50 ke beech price aur RSI '', Val rsi,
                    Txt '' neutral.''])"

text \<open>\<^verbatim>\<open>str.upper\<close> on the ASCII letters; other bytes are left as they are.\<close>

definition upper_char :: "char \<Rightarrow> char" where
  "upper_char c =
     (let n = (of_char c :: nat) in if 97 \<le> n \<and> n \<le> 122 then char_of (n - 32) else c)"

definition upper :: "string \<Rightarrow> string" where
  "upper s = map upper_char s"

text \<open>\<^verbatim>\<open>tail(k)\<close>: the last \<open>k\<close> values, all of them when there are fewer.\<close>

definition tail :: "nat \<Rightarrow> 'a list \<Rightarrow> 'a list" where
  "tail k xs = drop (length xs - k) xs"

record response =
  symbol :: string
  interval :: string
  trend :: string
  entry :: rat
  stoploss :: rat
  target :: rat
  confidence :: "piece list"
  explanation :: "piece list"
  prices :: "rat list"
  ema20_list :: "rat list"
  ema50_list :: "rat list"
  rsi_list :: "fl list"

text \<open>
  \<^verbatim>\<open>analyze\<close>, in four parts: \<open>classify\<close> is its \<^verbatim>\<open>if\<close>/\<^verbatim>\<open>elif\<close>/\<^verbatim>\<open>else\<close> on
  \<^verbatim>\<open>ema20\<close>, \<^verbatim>\<open>ema50\<close> and \<^verbatim>\<open>rsi\<close>; \<open>respond\<close> is what it does with the closes and
  the three series once pandas has computed them (the rounding of the last values, the
  classification and the dictionary it returns); \<open>build_response\<close> is \<open>respond\<close> on the
  three series of the closes; \<open>analyze\<close> itself is the call of \<^verbatim>\<open>get_klines\<close> around
  them.
  \<^verbatim>\<open>iloc[-1]\<close> on an empty column raises IndexError, at the first read of the last
  close, and nothing in the program catches it; an HTTPException of \<^verbatim>\<open>get_klines\<close>
  passes through. The requests that were sent are returned beside the result.
\<close>

definition classify :: "rat \<Rightarrow> rat \<Rightarrow> fl \<Rightarrow> string" where
  "classify ema20 ema50 rsi =
     (if ema50 < ema20 \<and> fl_less (Fin 55) rsi then ''Bullish''
      else if ema20 < ema50 \<and> fl_less rsi (Fin 45) then ''Bearish''
      else ''Sideways'')"

definition respond ::
  "string \<Rightarrow> string \<Rightarrow> rat list \<Rightarrow> fl list \<Rightarrow> rat list \<Rightarrow> rat list \<Rightarrow> response" where
  "respond symb iv closes rsi_series ema20_series ema50_series =
     (let price = round2 (last closes);
          rsi = fl_round2 (last rsi_series);
          ema20 = round2 (last ema20_series);
          ema50 = round2 (last ema50_series);
          tr = classify ema20 ema50 rsi
      in \<lparr>symbol = symb,
          interval = iv,
          trend = tr,
          entry = price,
          stoploss = round2 (fmul price (if iv = ''1d'' then 97 / 100 else 98 / 100)),
          target = round2 (fmul price (if iv = ''1d'' then 106 / 100 else 103 / 100)),
          confidence = [Txt ''RSI '', Val rsi],
          explanation = generate_explanation tr rsi (Fin ema20) (Fin ema50) iv,
          prices = tail 30 closes,
          ema20_list = tail 30 ema20_series,
          ema50_list = tail 30 ema50_series,
          rsi_list = tail 30 rsi_series\<rparr>)"

definition build_response :: "string \<Rightarrow> string \<Rightarrow> rat list \<Rightarrow> response" where
  "build_response symb iv closes =
     respond symb iv closes (calculate_rsi closes 14) (ewm_mean 20 closes) (ewm_mean 50 closes)"

definition analyze ::
  "(request \<Rightarrow> reply) \<Rightarrow> string \<Rightarrow> string \<Rightarrow> fetch_state \<times> (failure + response)" where
  "analyze net symb iv =
     (case get_klines net (upper symb) iv 200 of
        (st, Inl e) \<Rightarrow> (st, Inl e)
      | (st, Inr closes) \<Rightarrow>
          if closes = [] then (st, Inl IndexError)
          else (st, Inr (build_response (upper symb) iv closes)))"

section \<open>Notions used in the statements\<close>

text \<open>A value that is NaN or a finite value that is not negative.\<close>

fun nonneg_or_nan :: "fl \<Rightarrow> bool" where
  "nonneg_or_nan NaN = True"
| "nonneg_or_nan (Fin a) = (0 \<le> a)"
| "nonneg_or_nan _ = False"

text \<open>
  The candles that \<^verbatim>\<open>get_klines\<close> takes from a reply, if it takes any: the status is
  200, the body is a list, and the table could be built from it.
\<close>

fun accepted :: "reply \<Rightarrow> rat list option" where
  "accepted (Response code (Candles closes)) = (if code = 200 then Some closes else None)"
| "accepted _ = None"

text \<open>A number with at most two decimal places.\<close>

definition two_decimals :: "rat \<Rightarrow> bool" where
  "two_decimals x = (of_int \<lfloor>x * 100\<rfloor> = x * 100)"

fun piece_two_decimals :: "piece \<Rightarrow> bool" where
  "piece_two_decimals (Txt s) = True"
| "piece_two_decimals (Val (Fin a)) = two_decimals a"
| "piece_two_decimals (Val _) = False"

text \<open>
  The two requests of one call of \<^verbatim>\<open>get_klines\<close>, to the first and to the second
  address of \<^verbatim>\<open>BINANCE_URLS\<close>, and an environment in which the first address answers
  \<open>r1\<close> and any other address \<open>r2\<close>.
\<close>

definition first_request :: "string \<Rightarrow> string \<Rightarrow> int \<Rightarrow> request" where
  "first_request symb iv lmt =
     request_for ''https://api.binance.com/api/v3/klines'' symb (normalize_interval iv) lmt"

definition second_request :: "string \<Rightarrow> string \<Rightarrow> int \<Rightarrow> request" where
  "second_request symb iv lmt =
     request_for ''https://api.binance.us/api/v3/klines'' symb (normalize_interval iv) lmt"

definition two_replies :: "reply \<Rightarrow> reply \<Rightarrow> request \<Rightarrow> reply" where
  "two_replies r1 r2 rq =
     (if req_url rq = ''https://api.binance.com/api/v3/klines'' then r1 else r2)"

section \<open>The relative strength index\<close>

lemma length_diff: "length (diff xs) = length xs"
  by (cases xs) simp_all

lemma length_rolling_mean: "length (rolling_mean p xs) = length xs"
  by (simp add: rolling_mean_def)

lemma length_avg_gain: "length (avg_gain series p) = length series"
  by (simp add: avg_gain_def length_rolling_mean rsi_gain_def rsi_delta_def length_diff)

lemma length_avg_loss: "length (avg_loss series p) = length series"
  by (simp add: avg_loss_def length_rolling_mean rsi_loss_def rsi_delta_def length_diff)

lemma length_calculate_rsi: "length (calculate_rsi series p) = length series"
  by (simp add: calculate_rsi_def rs_def length_avg_gain length_avg_loss)

lemma calculate_rsi_nth:
  assumes "i < length series"
  shows "calculate_rsi series p ! i =
    fillna 50 (rsi_of_rs (fl_div (avg_gain series p ! i) (avg_loss series p ! i)))"
  using assms by (simp add: calculate_rsi_def rs_def length_avg_gain length_avg_loss)

lemma diff_cases: "d \<in> set (diff xs) \<Longrightarrow> d = NaN \<or> (\<exists>a. d = Fin a)"
  by (cases xs) (auto simp: set_zip)

lemma gain_nonneg: "g \<in> set (rsi_gain series) \<Longrightarrow> nonneg_or_nan g"
  by (auto simp: rsi_gain_def rsi_delta_def dest!: diff_cases)

lemma loss_nonneg: "l \<in> set (rsi_loss series) \<Longrightarrow> nonneg_or_nan l"
  by (auto simp: rsi_loss_def rsi_delta_def dest!: diff_cases)

lemma observations_nonneg:
  "\<forall>x\<in>set w. nonneg_or_nan x \<Longrightarrow> \<forall>v\<in>set (observations w). 0 \<le> v"
  by (induction w rule: observations.induct) auto

lemma window_mean_nonneg:
  assumes "\<And>x. x \<in> set w \<Longrightarrow> nonneg_or_nan x"
  shows "nonneg_or_nan (window_mean p w)"
proof -
  have "0 \<le> sum_list (observations w)"
    using assms observations_nonneg [of w] by (intro sum_list_nonneg) blast
  then show ?thesis
    by (simp add: window_mean_def Let_def)
qed

lemma set_window: "set (window p xs i) \<subseteq> set xs"
  unfolding window_def by (meson set_drop_subset set_take_subset subset_trans)

lemma rolling_mean_nonneg:
  assumes "\<And>x. x \<in> set xs \<Longrightarrow> nonneg_or_nan x" and "i < length xs"
  shows "nonneg_or_nan (rolling_mean p xs ! i)"
proof -
  have "rolling_mean p xs ! i = window_mean p (window p xs i)"
    using assms(2) by (simp add: rolling_mean_def)
  moreover have "nonneg_or_nan (window_mean p (window p xs i))"
    using assms(1) set_window by (intro window_mean_nonneg) blast
  ultimately show ?thesis by simp
qed

lemma rsi_value_range:
  assumes "nonneg_or_nan g" and "nonneg_or_nan l"
  shows "\<exists>r. fillna 50 (rsi_of_rs (fl_div g l)) = Fin r \<and> 0 \<le> r \<and> r \<le> 100"
proof (cases g)
  case (Fin a)
  note g = this
  show ?thesis
  proof (cases l)
    case (Fin b)
    show ?thesis
    proof (cases "b = 0")
      case True
      then show ?thesis using g Fin by (simp add: rsi_of_rs_def fl_sub_def)
    next
      case False
      with assms g Fin have a: "0 \<le> a" and b: "0 < b" by simp_all
      then have q: "0 \<le> a / b" by simp
      then have pos: "0 < 1 + a / b" by linarith
      have "100 / (1 + a / b) \<le> 100 / 1" using q by (intro divide_left_mono) simp_all
      then have "100 / (1 + a / b) \<le> 100" by simp
      moreover have "0 \<le> 100 / (1 + a / b)" using pos by (intro divide_nonneg_pos) simp_all
      ultimately show ?thesis using g Fin False pos
        by (simp add: rsi_of_rs_def fl_sub_def)
    qed
  qed (use assms g in \<open>simp_all add: rsi_of_rs_def fl_sub_def\<close>)
qed (use assms in \<open>simp_all add: rsi_of_rs_def fl_sub_def\<close>)

lemma length_observations: "length (observations w) \<le> length w"
  by (induction w rule: observations.induct) auto

lemma window_mean_warmup:
  assumes "i < p"
  shows "window_mean p (window p (NaN # ys) i) = NaN"
proof -
  have "window p (NaN # ys) i = NaN # take i ys"
    using assms by (simp add: window_def)
  moreover have "length (observations (take i ys)) \<le> i"
    using length_observations [of "take i ys"] by simp
  ultimately show ?thesis using assms by (simp add: window_mean_def)
qed

lemma rolling_mean_warmup:
  assumes "i < p" and "i < length xs" and "hd xs = NaN"
  shows "rolling_mean p xs ! i = NaN"
proof -
  from assms obtain ys where "xs = NaN # ys" by (cases xs) auto
  with assms show ?thesis
    using window_mean_warmup [of i p ys] by (simp add: rolling_mean_def del: upt_Suc)
qed

lemma hd_gain: "series \<noteq> [] \<Longrightarrow> hd (rsi_gain series) = NaN"
  by (cases series) (simp_all add: rsi_gain_def rsi_delta_def)

lemma calculate_rsi_warmup:
  assumes "i < p" and "i < length series"
  shows "calculate_rsi series p ! i = Fin 50"
proof -
  have "series \<noteq> []" using assms by auto
  moreover have "length (rsi_gain series) = length series"
    by (simp add: rsi_gain_def rsi_delta_def length_diff)
  ultimately have "avg_gain series p ! i = NaN"
    unfolding avg_gain_def using assms
    by (intro rolling_mean_warmup) (simp_all add: hd_gain)
  then show ?thesis using assms
    by (simp add: calculate_rsi_nth rsi_of_rs_def fl_sub_def)
qed

lemma calculate_rsi_range:
  assumes i: "i < length series"
  shows "\<exists>r. calculate_rsi series p ! i = Fin r \<and> 0 \<le> r \<and> r \<le> 100"
proof -
  have "nonneg_or_nan (avg_gain series p ! i)"
    unfolding avg_gain_def using i
    by (intro rolling_mean_nonneg gain_nonneg) (simp_all add: rsi_gain_def rsi_delta_def length_diff)
  moreover have "nonneg_or_nan (avg_loss series p ! i)"
    unfolding avg_loss_def using i
    by (intro rolling_mean_nonneg loss_nonneg) (simp_all add: rsi_loss_def rsi_delta_def length_diff)
  ultimately show ?thesis
    using rsi_value_range i by (simp add: calculate_rsi_nth)
qed

lemma last_calculate_rsi:
  assumes "closes \<noteq> []"
  shows "\<exists>r. last (calculate_rsi closes p) = Fin r \<and> 0 \<le> r \<and> r \<le> 100"
proof -
  have n: "calculate_rsi closes p \<noteq> []"
    using assms length_calculate_rsi [of closes p] by auto
  have "length closes - 1 < length closes" using assms by simp
  from calculate_rsi_range [OF this, of p] show ?thesis
    using n by (simp add: last_conv_nth length_calculate_rsi)
qed

text \<open>
  With the two zeros of the format told apart, a positive average gain over an average
  loss of zero is an infinity of either sign. The index does not depend on the sign.
\<close>

lemma rsi_of_rs_infinite: "rsi_of_rs PInf = Fin 100 \<and> rsi_of_rs NInf = Fin 100"
  by (simp add: rsi_of_rs_def fl_sub_def)

text \<open>
  Claim C1, as the code has it. The series of \<^verbatim>\<open>calculate_rsi\<close> with period 14 is as
  long as the closes, every value of it is a finite number between 0 and 100, and it
  is exactly 50 at each of the first 14 positions and wherever both rolling averages
  are 0. Where the average loss is 0 and the average gain is positive, the quotient is
  an infinity, not a missing value, and the value is 100.
\<close>

theorem rsi_range_and_neutral:
  "length (calculate_rsi series 14) = length series \<and>
   (\<forall>i<length series.
      (\<exists>r. calculate_rsi series 14 ! i = Fin r \<and> 0 \<le> r \<and> r \<le> 100) \<and>
      (i < 14 \<longrightarrow> calculate_rsi series 14 ! i = Fin 50) \<and>
      (avg_loss series 14 ! i = Fin 0 \<and> avg_gain series 14 ! i = Fin 0
         \<longrightarrow> calculate_rsi series 14 ! i = Fin 50) \<and>
      (\<forall>g. avg_loss series 14 ! i = Fin 0 \<and> avg_gain series 14 ! i = Fin g \<and> 0 < g
         \<longrightarrow> calculate_rsi series 14 ! i = Fin 100))"
proof (intro conjI allI impI)
  show "length (calculate_rsi series 14) = length series"
    by (rule length_calculate_rsi)
next
  fix i assume "i < length series"
  then show "\<exists>r. calculate_rsi series 14 ! i = Fin r \<and> 0 \<le> r \<and> r \<le> 100"
    by (rule calculate_rsi_range)
next
  fix i assume "i < length series" and "i < 14"
  then show "calculate_rsi series 14 ! i = Fin 50"
    by (intro calculate_rsi_warmup)
next
  fix i assume "i < length series"
    and "avg_loss series 14 ! i = Fin 0 \<and> avg_gain series 14 ! i = Fin 0"
  then show "calculate_rsi series 14 ! i = Fin 50"
    by (simp add: calculate_rsi_nth rsi_of_rs_def fl_sub_def)
next
  fix i g assume "i < length series"
    and "avg_loss series 14 ! i = Fin 0 \<and> avg_gain series 14 ! i = Fin g \<and> 0 < g"
  then show "calculate_rsi series 14 ! i = Fin 100"
    by (simp add: calculate_rsi_nth rsi_of_rs_def fl_sub_def)
qed

theorem rsi_range_and_neutral_witness:
  "avg_loss [1, 2, 3, 4, 5, 6, 7, 8, 9, 10, 11, 12, 13, 14, 15] 14 ! 14 = Fin 0 \<and>
   avg_gain [1, 2, 3, 4, 5, 6, 7, 8, 9, 10, 11, 12, 13, 14, 15] 14 ! 14 = Fin 1 \<and>
   calculate_rsi [1, 2, 3, 4, 5, 6, 7, 8, 9, 10, 11, 12, 13, 14, 15] 14 ! 14 = Fin 100 \<and>
   calculate_rsi [1, 2, 3, 4, 5, 6, 7, 8, 9, 10, 11, 12, 13, 14, 15] 14 ! 3 = Fin 50"
proof -
  let ?c = "[1, 2, 3, 4, 5, 6, 7, 8, 9, 10, 11, 12, 13, 14, 15] :: rat list"
  have l: "avg_loss ?c 14 ! 14 = Fin 0" by code_simp
  have g: "avg_gain ?c 14 ! 14 = Fin 1" by code_simp
  have n: "length ?c = 15" by simp
  from rsi_range_and_neutral [of ?c] n l g
  have "calculate_rsi ?c 14 ! 14 = Fin 100" by simp
  moreover from rsi_range_and_neutral [of ?c] n
  have "calculate_rsi ?c 14 ! 3 = Fin 50" by simp
  ultimately show ?thesis using l g by simp
qed

text \<open>
  Claim C1 as it is written fails on fifteen rising closes: at the last position the
  average loss is 0 and the value is 100, not 50.
\<close>

theorem rsi_neutral_counterexample:
  "avg_loss [1, 2, 3, 4, 5, 6, 7, 8, 9, 10, 11, 12, 13, 14, 15] 14 ! 14 = Fin 0 \<and>
   calculate_rsi [1, 2, 3, 4, 5, 6, 7, 8, 9, 10, 11, 12, 13, 14, 15] 14 ! 14 = Fin 100 \<and>
   calculate_rsi [1, 2, 3, 4, 5, 6, 7, 8, 9, 10, 11, 12, 13, 14, 15] 14 ! 14 \<noteq> Fin 50"
  by code_simp

section \<open>The exponential moving averages\<close>

lemma length_ewm_from: "length (ewm_from a w xs) = length xs"
  by (induction xs arbitrary: w) (simp_all add: Let_def)

lemma length_ewm_mean: "length (ewm_mean spn xs) = length xs"
  by (cases xs) (simp_all add: length_ewm_from)

lemma ewm_from_nth:
  "i < length xs \<Longrightarrow>
   ewm_from a w xs ! i =
     (1 - a) * (if i = 0 then w else ewm_from a w xs ! (i - 1)) + a * xs ! i"
proof (induction xs arbitrary: w i)
  case Nil
  then show ?case by simp
next
  case (Cons x xs)
  show ?case
  proof (cases i)
    case 0
    then show ?thesis by (simp add: Let_def)
  next
    case (Suc j)
    with Cons.prems have "j < length xs" by simp
    from Cons.IH [OF this, of "(1 - a) * w + a * x"] Suc show ?thesis
      by (cases j) (simp_all add: Let_def)
  qed
qed

lemma ewm_mean_nth:
  assumes "0 < i" and "i < length xs"
  shows "ewm_mean spn xs ! i =
    (1 - ewm_alpha spn) * ewm_mean spn xs ! (i - 1) + ewm_alpha spn * xs ! i"
proof -
  from assms obtain x ys where xs: "xs = x # ys" by (cases xs) auto
  from assms obtain j where i: "i = Suc j" by (cases i) auto
  with assms xs have "j < length ys" by simp
  from ewm_from_nth [OF this, of "ewm_alpha spn" x] xs i show ?thesis
    by (cases j) simp_all
qed

text \<open>
  Claim C2. On a column of closes that is not empty, the moving average of any span
  (the endpoint computes the spans 20 and 50 and returns their last 30 values) has a
  value at every position, starts with the first close, and from then on is
  \<open>\<alpha> * close[i] + (1 - \<alpha>) * ema[i - 1]\<close> with \<open>\<alpha> = 2 / (span + 1)\<close>.
\<close>

theorem ema_recurrence:
  "closes \<noteq> [] \<Longrightarrow>
   length (ewm_mean spn closes) = length closes \<and>
   ewm_mean spn closes ! 0 = closes ! 0 \<and>
   (\<forall>i. 0 < i \<and> i < length closes \<longrightarrow>
      ewm_mean spn closes ! i =
        (2 / (of_nat spn + 1)) * closes ! i +
        (1 - 2 / (of_nat spn + 1)) * ewm_mean spn closes ! (i - 1)) \<and>
   ema20_list (build_response symb iv closes) = tail 30 (ewm_mean 20 closes) \<and>
   ema50_list (build_response symb iv closes) = tail 30 (ewm_mean 50 closes)"
proof (intro conjI allI impI)
  assume ne: "closes \<noteq> []"
  show "length (ewm_mean spn closes) = length closes"
    by (rule length_ewm_mean)
  from ne show "ewm_mean spn closes ! 0 = closes ! 0"
    by (cases closes) simp_all
  show "ema20_list (build_response symb iv closes) = tail 30 (ewm_mean 20 closes)"
    by (simp add: build_response_def respond_def Let_def)
  show "ema50_list (build_response symb iv closes) = tail 30 (ewm_mean 50 closes)"
    by (simp add: build_response_def respond_def Let_def)
next
  fix i assume "0 < i \<and> i < length closes"
  then have "ewm_mean spn closes ! i =
      (1 - ewm_alpha spn) * ewm_mean spn closes ! (i - 1) + ewm_alpha spn * closes ! i"
    by (intro ewm_mean_nth) simp_all
  then show "ewm_mean spn closes ! i =
      (2 / (of_nat spn + 1)) * closes ! i +
      (1 - 2 / (of_nat spn + 1)) * ewm_mean spn closes ! (i - 1)"
    by (simp add: ewm_alpha_def)
qed

theorem ema_recurrence_witness:
  "[10, 31, 52] \<noteq> ([] :: rat list) \<and>
   ewm_mean 20 [10, 31, 52] ! 0 = 10 \<and>
   ewm_mean 20 [10, 31, 52] ! 1 = 12 \<and>
   ewm_mean 20 [10, 31, 52] ! 2 = 2 / 21 * 52 + (1 - 2 / 21) * 12"
proof -
  have ne: "[10, 31, 52] \<noteq> ([] :: rat list)" by simp
  note r = ema_recurrence [OF ne, of 20]
  from r have h0: "ewm_mean 20 [10, 31, 52] ! 0 = 10" by simp
  from r have rec: "\<And>i. 0 < i \<Longrightarrow> i < 3 \<Longrightarrow>
      ewm_mean 20 [10, 31, 52] ! i =
        2 / 21 * [10, 31, 52] ! i + (1 - 2 / 21) * ewm_mean 20 [10, 31, 52] ! (i - 1)"
    by simp
  from rec [of 1] h0 have h1: "ewm_mean 20 [10, 31, 52] ! 1 = 12" by simp
  from rec [of 2] h1 have h2: "ewm_mean 20 [10, 31, 52] ! 2 = 2 / 21 * 52 + (1 - 2 / 21) * 12"
    by simp
  from ne h0 h1 h2 show ?thesis by blast
qed

section \<open>The fetch\<close>

lemma try_urls_accept:
  assumes "accepted (net (request_for u symb iv lmt)) = Some cs"
  shows "try_urls net symb iv lmt (u # us) st =
    (st\<lparr>sent := sent st @ [request_for u symb iv lmt]\<rparr>, Some cs)"
  using assms
  by (cases "net (request_for u symb iv lmt)" rule: accepted.cases)
    (simp_all add: Let_def split: if_splits)

lemma try_urls_reject:
  assumes "accepted (net (request_for u symb iv lmt)) = None"
  shows "\<exists>e. try_urls net symb iv lmt (u # us) st =
    try_urls net symb iv lmt us
      (st\<lparr>sent := sent st @ [request_for u symb iv lmt], last_error := Some e\<rparr>)"
  using assms
  by (cases "net (request_for u symb iv lmt)" rule: accepted.cases)
    (auto simp: Let_def split: if_splits)

lemma get_klines_first:
  assumes "accepted (net (first_request symb iv lmt)) = Some cs"
  shows "get_klines net symb iv lmt =
    (\<lparr>sent = [first_request symb iv lmt], last_error = None\<rparr>, Inr cs)"
proof -
  have "accepted (net (request_for ''https://api.binance.com/api/v3/klines'' symb
      (normalize_interval iv) lmt)) = Some cs"
    using assms by (simp add: first_request_def)
  from try_urls_accept [where net = net, OF this] show ?thesis
    by (simp add: get_klines_def BINANCE_URLS_def first_request_def del: try_urls.simps)
qed

lemma try_urls_first_rejected:
  assumes "accepted (net (first_request symb iv lmt)) = None"
  shows "\<exists>e. try_urls net symb (normalize_interval iv) lmt BINANCE_URLS
        \<lparr>sent = [], last_error = None\<rparr> =
      try_urls net symb (normalize_interval iv) lmt [''https://api.binance.us/api/v3/klines'']
        \<lparr>sent = [first_request symb iv lmt], last_error = Some e\<rparr>"
proof -
  have "accepted (net (request_for ''https://api.binance.com/api/v3/klines'' symb
      (normalize_interval iv) lmt)) = None"
    using assms by (simp add: first_request_def)
  from try_urls_reject [where net = net and st = "\<lparr>sent = [], last_error = None\<rparr>"
      and us = "[''https://api.binance.us/api/v3/klines'']", OF this]
  show ?thesis
    by (simp add: BINANCE_URLS_def first_request_def del: try_urls.simps)
qed

lemma get_klines_second:
  assumes "accepted (net (first_request symb iv lmt)) = None"
    and "accepted (net (second_request symb iv lmt)) = Some cs"
  shows "\<exists>e. get_klines net symb iv lmt =
    (\<lparr>sent = [first_request symb iv lmt, second_request symb iv lmt], last_error = Some e\<rparr>,
     Inr cs)"
proof -
  from try_urls_first_rejected [where net = net, OF assms(1)]
  obtain e where e: "try_urls net symb (normalize_interval iv) lmt BINANCE_URLS
        \<lparr>sent = [], last_error = None\<rparr> =
      try_urls net symb (normalize_interval iv) lmt [''https://api.binance.us/api/v3/klines'']
        \<lparr>sent = [first_request symb iv lmt], last_error = Some e\<rparr>" ..
  have "accepted (net (request_for ''https://api.binance.us/api/v3/klines'' symb
      (normalize_interval iv) lmt)) = Some cs"
    using assms(2) by (simp add: second_request_def)
  from try_urls_accept [where net = net, OF this] e show ?thesis
    by (simp add: get_klines_def second_request_def del: try_urls.simps)
qed

lemma get_klines_none:
  assumes "accepted (net (first_request symb iv lmt)) = None"
    and "accepted (net (second_request symb iv lmt)) = None"
  shows "\<exists>e. get_klines net symb iv lmt =
    (\<lparr>sent = [first_request symb iv lmt, second_request symb iv lmt], last_error = Some e\<rparr>,
     Inl (HTTPException 500 ''Binance API error (all endpoints failed)''))"
proof -
  from try_urls_first_rejected [where net = net, OF assms(1)]
  obtain e where e: "try_urls net symb (normalize_interval iv) lmt BINANCE_URLS
        \<lparr>sent = [], last_error = None\<rparr> =
      try_urls net symb (normalize_interval iv) lmt [''https://api.binance.us/api/v3/klines'']
        \<lparr>sent = [first_request symb iv lmt], last_error = Some e\<rparr>" ..
  have "accepted (net (request_for ''https://api.binance.us/api/v3/klines'' symb
      (normalize_interval iv) lmt)) = None"
    using assms(2) by (simp add: second_request_def)
  from try_urls_reject [where net = net and us = "[]"
      and st = "\<lparr>sent = [first_request symb iv lmt], last_error = Some e\<rparr>", OF this]
  obtain e' where "try_urls net symb (normalize_interval iv) lmt
        [''https://api.binance.us/api/v3/klines'']
        \<lparr>sent = [first_request symb iv lmt], last_error = Some e\<rparr> =
      (\<lparr>sent = [first_request symb iv lmt, second_request symb iv lmt], last_error = Some e'\<rparr>,
       None)"
    by (auto simp: second_request_def simp del: try_urls.simps(2))
  with e show ?thesis
    by (simp add: get_klines_def del: try_urls.simps)
qed

lemma get_klines_sent:
  "sent (fst (get_klines net symb iv lmt)) =
     (if accepted (net (first_request symb iv lmt)) = None
      then [first_request symb iv lmt, second_request symb iv lmt]
      else [first_request symb iv lmt])"
proof (cases "accepted (net (first_request symb iv lmt))")
  case (Some cs)
  from get_klines_first [where net = net, OF this] show ?thesis using Some by simp
next
  case None
  note n1 = this
  show ?thesis
  proof (cases "accepted (net (second_request symb iv lmt))")
    case None
    from get_klines_none [where net = net, OF n1 this] show ?thesis using n1 by auto
  next
    case (Some cs)
    from get_klines_second [where net = net, OF n1 this] show ?thesis using n1 by auto
  qed
qed

lemma get_klines_result:
  "snd (get_klines net symb iv lmt) =
     (case accepted (net (first_request symb iv lmt)) of
        Some cs \<Rightarrow> Inr cs
      | None \<Rightarrow>
          (case accepted (net (second_request symb iv lmt)) of
             Some cs \<Rightarrow> Inr cs
           | None \<Rightarrow> Inl (HTTPException 500 ''Binance API error (all endpoints failed)'')))"
proof (cases "accepted (net (first_request symb iv lmt))")
  case (Some cs)
  from get_klines_first [where net = net, OF this] show ?thesis using Some by simp
next
  case None
  note n1 = this
  show ?thesis
  proof (cases "accepted (net (second_request symb iv lmt))")
    case None
    from get_klines_none [where net = net, OF n1 this] show ?thesis using n1 None by auto
  next
    case (Some cs)
    from get_klines_second [where net = net, OF n1 this] show ?thesis using n1 Some by auto
  qed
qed

lemma normalize_interval_15m:
  "iv \<notin> set ALLOWED_INTERVALS \<Longrightarrow> normalize_interval iv = ''15m''"
  "normalize_interval ''15m'' = ''15m''"
  by (simp_all add: normalize_interval_def ALLOWED_INTERVALS_def)

lemma normalize_interval_allowed:
  "iv \<in> set ALLOWED_INTERVALS \<Longrightarrow> normalize_interval iv = iv"
  by (simp add: normalize_interval_def)

lemma request_fields:
  "req_symbol (first_request symb iv lmt) = symb"
  "req_interval (first_request symb iv lmt) = normalize_interval iv"
  "req_limit (first_request symb iv lmt) = lmt"
  "req_symbol (second_request symb iv lmt) = symb"
  "req_interval (second_request symb iv lmt) = normalize_interval iv"
  "req_limit (second_request symb iv lmt) = lmt"
  by (simp_all add: first_request_def second_request_def request_for_def)

lemma get_klines_last_error:
  assumes "accepted (net (first_request symb iv lmt)) = None"
  shows "last_error (fst (get_klines net symb iv lmt)) \<noteq> None"
proof (cases "accepted (net (second_request symb iv lmt))")
  case None
  from get_klines_none [where net = net, OF assms this] show ?thesis by auto
next
  case (Some cs)
  from get_klines_second [where net = net, OF assms this] show ?thesis by auto
qed

lemma two_replies_first [simp]: "two_replies r1 r2 (first_request symb iv lmt) = r1"
  by (simp add: two_replies_def first_request_def request_for_def)

lemma two_replies_second [simp]: "two_replies r1 r2 (second_request symb iv lmt) = r2"
  by (simp add: two_replies_def second_request_def request_for_def)

lemma example_fetch:
  "get_klines (two_replies (Response 200 (Candles closes)) r2) symb iv lmt =
     (\<lparr>sent = [first_request symb iv lmt], last_error = None\<rparr>, Inr closes)"
  by (rule get_klines_first) simp

text \<open>
  Claim C4. When the reply of the first address is not taken (an exception of the call,
  a status other than 200, a body that is not a list, or one that cannot be read), the
  second address is asked with the same symbol, interval and limit, and the error of the
  first is recorded. When neither reply is taken, \<^verbatim>\<open>get_klines\<close> fails with status 500 and
  one fixed text, whatever the replies were; it returns candles only when one of the two
  replies was taken, and then the candles of that reply.
\<close>

theorem fetch_fallback:
  "(accepted (net (first_request symb iv lmt)) = None \<longrightarrow>
      sent (fst (get_klines net symb iv lmt)) =
        [first_request symb iv lmt, second_request symb iv lmt] \<and>
      req_symbol (second_request symb iv lmt) = req_symbol (first_request symb iv lmt) \<and>
      req_interval (second_request symb iv lmt) = req_interval (first_request symb iv lmt) \<and>
      req_limit (second_request symb iv lmt) = req_limit (first_request symb iv lmt) \<and>
      last_error (fst (get_klines net symb iv lmt)) \<noteq> None) \<and>
   (accepted (net (first_request symb iv lmt)) = None \<and>
    accepted (net (second_request symb iv lmt)) = None \<longrightarrow>
      snd (get_klines net symb iv lmt) =
        Inl (HTTPException 500 ''Binance API error (all endpoints failed)'')) \<and>
   (\<forall>closes. snd (get_klines net symb iv lmt) = Inr closes \<longrightarrow>
      accepted (net (first_request symb iv lmt)) = Some closes \<or>
      accepted (net (first_request symb iv lmt)) = None \<and>
      accepted (net (second_request symb iv lmt)) = Some closes) \<and>
   (\<forall>e. accepted (Raised e) = None) \<and>
   (\<forall>code b. code \<noteq> 200 \<longrightarrow> accepted (Response code b) = None) \<and>
   (\<forall>code. accepted (Response code Not_list) = None)"
proof (intro conjI allI impI)
  fix code :: nat and b assume "code \<noteq> 200"
  then show "accepted (Response code b) = None" by (cases b) simp_all
next
  fix closes assume "snd (get_klines net symb iv lmt) = Inr closes"
  then show "accepted (net (first_request symb iv lmt)) = Some closes \<or>
      accepted (net (first_request symb iv lmt)) = None \<and>
      accepted (net (second_request symb iv lmt)) = Some closes"
    by (simp add: get_klines_result split: option.splits)
qed (simp_all add: get_klines_sent get_klines_result request_fields get_klines_last_error)

theorem fetch_fallback_witness:
  "accepted (two_replies (Response 451 Not_list) (Response 200 Not_list)
       (first_request ''BTCUSDT'' ''1h'' 200)) = None \<and>
   accepted (two_replies (Response 451 Not_list) (Response 200 Not_list)
       (second_request ''BTCUSDT'' ''1h'' 200)) = None \<and>
   sent (fst (get_klines (two_replies (Response 451 Not_list) (Response 200 Not_list))
       ''BTCUSDT'' ''1h'' 200)) =
     [first_request ''BTCUSDT'' ''1h'' 200, second_request ''BTCUSDT'' ''1h'' 200] \<and>
   snd (get_klines (two_replies (Response 451 Not_list) (Response 200 Not_list))
       ''BTCUSDT'' ''1h'' 200) =
     Inl (HTTPException 500 ''Binance API error (all endpoints failed)'')"
proof -
  let ?net = "two_replies (Response 451 Not_list) (Response 200 Not_list)"
  have h1: "accepted (?net (first_request ''BTCUSDT'' ''1h'' 200)) = None" by simp
  have h2: "accepted (?net (second_request ''BTCUSDT'' ''1h'' 200)) = None" by simp
  from fetch_fallback [of ?net "''BTCUSDT''" "''1h''" 200] h1 h2 show ?thesis
    by blast
qed

text \<open>
  Claim C5. With an interval outside the allowed list, \<^verbatim>\<open>get_klines\<close> does what it does
  for \<^verbatim>\<open>15m\<close>: every request it sends (there is at least one) carries the interval
  \<^verbatim>\<open>15m\<close>, and when the first address answers with candles they are returned.
\<close>

theorem interval_normalized:
  "iv \<notin> set ALLOWED_INTERVALS \<Longrightarrow>
   get_klines net symb iv lmt = get_klines net symb ''15m'' lmt \<and>
   sent (fst (get_klines net symb iv lmt)) \<noteq> [] \<and>
   (\<forall>rq \<in> set (sent (fst (get_klines net symb iv lmt))). req_interval rq = ''15m'') \<and>
   (\<forall>closes. accepted (net (request_for ''https://api.binance.com/api/v3/klines'' symb ''15m'' lmt))
        = Some closes \<longrightarrow> snd (get_klines net symb iv lmt) = Inr closes)"
proof -
  assume "iv \<notin> set ALLOWED_INTERVALS"
  then have n: "normalize_interval iv = ''15m''" by (rule normalize_interval_15m)
  have eq: "get_klines net symb iv lmt = get_klines net symb ''15m'' lmt"
    by (simp add: get_klines_def n normalize_interval_15m del: try_urls.simps)
  have f: "first_request symb iv lmt =
      request_for ''https://api.binance.com/api/v3/klines'' symb ''15m'' lmt"
    by (simp add: first_request_def n)
  show ?thesis
  proof (intro conjI allI impI ballI)
    show "get_klines net symb iv lmt = get_klines net symb ''15m'' lmt" by (rule eq)
    show "sent (fst (get_klines net symb iv lmt)) \<noteq> []" by (simp add: get_klines_sent)
  next
    fix rq assume "rq \<in> set (sent (fst (get_klines net symb iv lmt)))"
    then show "req_interval rq = ''15m''"
      by (auto simp: get_klines_sent request_fields n split: if_splits)
  next
    fix closes
    assume "accepted (net (request_for ''https://api.binance.com/api/v3/klines'' symb ''15m'' lmt))
      = Some closes"
    then show "snd (get_klines net symb iv lmt) = Inr closes"
      by (simp add: get_klines_result f)
  qed
qed

theorem interval_normalized_witness:
  "''2h'' \<notin> set ALLOWED_INTERVALS \<and>
   get_klines (two_replies (Response 200 (Candles [100])) (Raised [])) ''BTCUSDT'' ''2h'' 200 =
     get_klines (two_replies (Response 200 (Candles [100])) (Raised [])) ''BTCUSDT'' ''15m'' 200 \<and>
   map req_interval (sent (fst (get_klines (two_replies (Response 200 (Candles [100])) (Raised []))
     ''BTCUSDT'' ''2h'' 200))) = [''15m''] \<and>
   snd (get_klines (two_replies (Response 200 (Candles [100])) (Raised [])) ''BTCUSDT'' ''2h'' 200) =
     Inr [100]"
proof -
  let ?net = "two_replies (Response 200 (Candles [100])) (Raised [])"
  have h: "''2h'' \<notin> set ALLOWED_INTERVALS" by (simp add: ALLOWED_INTERVALS_def)
  have s: "sent (fst (get_klines ?net ''BTCUSDT'' ''2h'' 200)) = [first_request ''BTCUSDT'' ''2h'' 200]"
    by (simp add: example_fetch)
  have a: "accepted (?net (request_for ''https://api.binance.com/api/v3/klines'' ''BTCUSDT'' ''15m'' 200))
      = Some [100]"
    by (simp add: two_replies_def request_for_def)
  note t = interval_normalized [OF h, of ?net "''BTCUSDT''" 200]
  from t have 1: "get_klines ?net ''BTCUSDT'' ''2h'' 200 = get_klines ?net ''BTCUSDT'' ''15m'' 200"
    by blast
  from t s have 2: "map req_interval (sent (fst (get_klines ?net ''BTCUSDT'' ''2h'' 200))) = [''15m'']"
    by simp
  from t a have 3: "snd (get_klines ?net ''BTCUSDT'' ''2h'' 200) = Inr [100]"
    by blast
  from h 1 2 3 show ?thesis by blast
qed

section \<open>The endpoint\<close>

lemma analyze_Inr:
  assumes "analyze net symb iv = (st, Inr r)"
  shows "\<exists>closes. get_klines net (upper symb) iv 200 = (st, Inr closes) \<and> closes \<noteq> [] \<and>
    r = build_response (upper symb) iv closes"
  using assms
  by (auto simp: analyze_def split: prod.splits sum.splits if_splits)

lemma analyze_fst: "fst (analyze net symb iv) = fst (get_klines net (upper symb) iv 200)"
  by (auto simp: analyze_def split: prod.splits sum.splits if_splits)

lemma analyze_ok:
  assumes "get_klines net (upper symb) iv 200 = (st, Inr closes)" and "closes \<noteq> []"
  shows "analyze net symb iv = (st, Inr (build_response (upper symb) iv closes))"
  using assms by (simp add: analyze_def)

lemma analyze_unique:
  assumes "analyze net symb iv = (st, Inr r)"
    and "get_klines net (upper symb) iv 200 = (st', Inr closes)"
  shows "st' = st \<and> closes \<noteq> [] \<and> r = build_response (upper symb) iv closes"
  using analyze_Inr [OF assms(1)] assms(2) by auto

lemma example_analyze:
  "closes \<noteq> [] \<Longrightarrow>
   analyze (two_replies (Response 200 (Candles closes)) r2) symb iv =
     (\<lparr>sent = [first_request (upper symb) iv 200], last_error = None\<rparr>,
      Inr (build_response (upper symb) iv closes))"
  by (rule analyze_ok [OF example_fetch])

lemma upper_btcusdt: "upper ''btcusdt'' = ''BTCUSDT''"
  by code_simp

lemma classify_cases:
  "classify a b r = ''Bullish'' \<longleftrightarrow> b < a \<and> fl_less (Fin 55) r"
  "classify a b r = ''Bearish'' \<longleftrightarrow> \<not> (b < a \<and> fl_less (Fin 55) r) \<and> a < b \<and> fl_less r (Fin 45)"
  "classify a b r = ''Sideways'' \<longleftrightarrow>
     \<not> (b < a \<and> fl_less (Fin 55) r) \<and> \<not> (a < b \<and> fl_less r (Fin 45))"
  by (simp_all add: classify_def)

lemma upper_dogeusdt: "upper ''dogeusdt'' = ''DOGEUSDT''"
  by code_simp

lemma length_tail: "length (tail k xs) = min k (length xs)"
  by (simp add: tail_def)

lemma tail_nth: "i < min k (length xs) \<Longrightarrow> tail k xs ! i = xs ! (length xs - min k (length xs) + i)"
  by (auto simp: tail_def min_def)

lemma two_decimals_round2: "two_decimals (round2 x)"
  by (simp add: two_decimals_def round2_def)

lemma normalize_interval_fixed: "normalize_interval iv = iv \<longleftrightarrow> iv \<in> set ALLOWED_INTERVALS"
  by (auto simp: normalize_interval_def ALLOWED_INTERVALS_def)

lemma analyze_sent:
  "rq \<in> set (sent (fst (analyze net symb iv))) \<Longrightarrow> req_interval rq = normalize_interval iv"
  by (auto simp: analyze_fst get_klines_sent request_fields split: if_splits)

lemma round2_examples:
  "round2 (fmul 100 (97 / 100)) = 97" "round2 (fmul 100 (106 / 100)) = 106"
  "round2 (fmul 100 (98 / 100)) = 98" "round2 (fmul 100 (103 / 100)) = 103"
  by code_simp+

text \<open>
  Rounding follows the binary64 values, not the decimals they are written as: 1.015 is
  below the tie and gives 1.01, the product of 1.25 and 0.98 is above 1.225 and gives
  1.23, the product of 8.75 and 0.98 is below 8.575 and gives 8.57, and 2.675 times 100
  is the tie 267.5 and gives 2.68.
\<close>

lemma round2_binary64_examples:
  "round2 (1015 / 1000) = 101 / 100"
  "round2 (fmul (125 / 100) (98 / 100)) = 123 / 100"
  "round2 (fmul (875 / 100) (98 / 100)) = 857 / 100"
  "round2 (2675 / 1000) = 268 / 100"
  "binary64 (1 / 10) = 3602879701896397 / 36028797018963968"
  by code_simp+

lemma explanation_two_decimals:
  "list_all piece_two_decimals
     (generate_explanation tr (Fin (round2 a)) (Fin (round2 b)) (Fin (round2 c)) iv)"
  by (simp add: generate_explanation_def Let_def two_decimals_round2)

text \<open>
  A response of \<^verbatim>\<open>analyze\<close> is \<open>respond\<close> on the closes that were fetched and on their
  three series.
\<close>

lemma analyze_responds:
  assumes "analyze net symb iv = (st, Inr r)"
  shows "\<exists>closes. closes \<noteq> [] \<and> snd (get_klines net (upper symb) iv 200) = Inr closes \<and>
    r = respond (upper symb) iv closes
      (calculate_rsi closes 14) (ewm_mean 20 closes) (ewm_mean 50 closes)"
  using analyze_Inr [OF assms] by (auto simp: build_response_def)

text \<open>
  Claim C3, as the code has it. \<^verbatim>\<open>analyze\<close> rounds the last value of each series to
  two decimal places first and classifies the rounded values, its variables \<^verbatim>\<open>ema20\<close>,
  \<^verbatim>\<open>ema50\<close> and \<^verbatim>\<open>rsi\<close>: whatever the three series are, the trend is Bullish exactly
  when \<open>ema20 > ema50\<close> and \<open>rsi > 55\<close>, Bearish exactly when \<open>ema20 < ema50\<close> and
  \<open>rsi < 45\<close>, and Sideways in every other case, so with equal rounded averages and with
  a rounded index of exactly 55 or exactly 45. The three series are arbitrary here, so
  the statement does not depend on how pandas rounds while it computes them: an index
  of 55.00500000000065 rounds to 55.01 and counts as above 55.
\<close>

theorem trend_rule:
  "rsi_series \<noteq> [] \<Longrightarrow> ema20_series \<noteq> [] \<Longrightarrow> ema50_series \<noteq> [] \<Longrightarrow>
   (let r = respond symb iv closes rsi_series ema20_series ema50_series;
        ema20 = round2 (last ema20_series);
        ema50 = round2 (last ema50_series);
        rsi = fl_round2 (last rsi_series)
    in trend r = classify ema20 ema50 rsi \<and>
       (trend r = ''Bullish'' \<longleftrightarrow> ema50 < ema20 \<and> fl_less (Fin 55) rsi) \<and>
       (trend r = ''Bearish'' \<longleftrightarrow> ema20 < ema50 \<and> fl_less rsi (Fin 45)) \<and>
       (trend r = ''Sideways'' \<longleftrightarrow>
          \<not> (ema50 < ema20 \<and> fl_less (Fin 55) rsi) \<and> \<not> (ema20 < ema50 \<and> fl_less rsi (Fin 45))) \<and>
       (ema20 = ema50 \<or> rsi = Fin 55 \<or> rsi = Fin 45 \<longrightarrow> trend r = ''Sideways'') \<and>
       (\<forall>x. rsi = Fin x \<longrightarrow>
          fl_less (Fin 55) rsi = (55 < x) \<and> fl_less rsi (Fin 45) = (x < 45)))"
proof -
  have t: "trend (respond symb iv closes rsi_series ema20_series ema50_series) =
      classify (round2 (last ema20_series)) (round2 (last ema50_series))
        (fl_round2 (last rsi_series))"
    by (simp add: respond_def Let_def)
  show ?thesis
    unfolding Let_def t
    by (auto simp: classify_def)
qed

theorem trend_rule_witness:
  "[Fin (5500500000000065 / 100000000000000)] \<noteq> [] \<and>
   [101504 / 1000] \<noteq> ([] :: rat list) \<and> [1002 / 10] \<noteq> ([] :: rat list) \<and>
   fl_round2 (last [Fin (5500500000000065 / 100000000000000)]) = Fin (5501 / 100) \<and>
   round2 (last [101504 / 1000]) = 1015 / 10 \<and>
   round2 (last [1002 / 10]) = 1002 / 10 \<and>
   trend (respond ''BTCUSDT'' ''1h'' [100] [Fin (5500500000000065 / 100000000000000)]
     [101504 / 1000] [1002 / 10]) = ''Bullish''"
proof -
  let ?rs = "[Fin (5500500000000065 / 100000000000000)]"
  let ?e20 = "[101504 / 1000] :: rat list"
  let ?e50 = "[1002 / 10] :: rat list"
  have n: "?rs \<noteq> []" "?e20 \<noteq> []" "?e50 \<noteq> []" by simp_all
  have x: "fl_round2 (last ?rs) = Fin (5501 / 100)" by code_simp
  have a: "round2 (last ?e20) = 1015 / 10" by code_simp
  have b: "round2 (last ?e50) = 1002 / 10" by code_simp
  have "fl_less (Fin 55) (Fin (5501 / 100))" by simp
  moreover have "(1002 / 10 :: rat) < 1015 / 10" by simp
  ultimately have "trend (respond ''BTCUSDT'' ''1h'' [100] ?rs ?e20 ?e50) = ''Bullish''"
    using trend_rule [OF n, of "''BTCUSDT''" "''1h''" "[100]", unfolded Let_def x a b]
    by blast
  with n x a b show ?thesis by blast
qed

text \<open>
  Claim C3 as it is written, on the last values themselves, fails on fifteen closes
  rising from 1.0000 to 1.0014: the last value of the average of span 20 (1.00068) is
  above that of span 50 (1.00035) and the last index is 100, but both averages round to
  1.0 and the trend is Sideways.
\<close>

theorem trend_rule_counterexample:
  "analyze (two_replies (Response 200 (Candles
       [10000 / 10000, 10001 / 10000, 10002 / 10000, 10003 / 10000, 10004 / 10000,
        10005 / 10000, 10006 / 10000, 10007 / 10000, 10008 / 10000, 10009 / 10000,
        10010 / 10000, 10011 / 10000, 10012 / 10000, 10013 / 10000, 10014 / 10000]))
       (Raised [])) ''btcusdt'' ''1h'' =
     (\<lparr>sent = [first_request ''BTCUSDT'' ''1h'' 200], last_error = None\<rparr>,
      Inr (build_response ''BTCUSDT'' ''1h''
       [10000 / 10000, 10001 / 10000, 10002 / 10000, 10003 / 10000, 10004 / 10000,
        10005 / 10000, 10006 / 10000, 10007 / 10000, 10008 / 10000, 10009 / 10000,
        10010 / 10000, 10011 / 10000, 10012 / 10000, 10013 / 10000, 10014 / 10000])) \<and>
   last (ewm_mean 50
       [10000 / 10000, 10001 / 10000, 10002 / 10000, 10003 / 10000, 10004 / 10000,
        10005 / 10000, 10006 / 10000, 10007 / 10000, 10008 / 10000, 10009 / 10000,
        10010 / 10000, 10011 / 10000, 10012 / 10000, 10013 / 10000, 10014 / 10000]) <
   last (ewm_mean 20
       [10000 / 10000, 10001 / 10000, 10002 / 10000, 10003 / 10000, 10004 / 10000,
        10005 / 10000, 10006 / 10000, 10007 / 10000, 10008 / 10000, 10009 / 10000,
        10010 / 10000, 10011 / 10000, 10012 / 10000, 10013 / 10000, 10014 / 10000]) \<and>
   last (calculate_rsi
       [10000 / 10000, 10001 / 10000, 10002 / 10000, 10003 / 10000, 10004 / 10000,
        10005 / 10000, 10006 / 10000, 10007 / 10000, 10008 / 10000, 10009 / 10000,
        10010 / 10000, 10011 / 10000, 10012 / 10000, 10013 / 10000, 10014 / 10000] 14) = Fin 100 \<and>
   trend (build_response ''BTCUSDT'' ''1h''
       [10000 / 10000, 10001 / 10000, 10002 / 10000, 10003 / 10000, 10004 / 10000,
        10005 / 10000, 10006 / 10000, 10007 / 10000, 10008 / 10000, 10009 / 10000,
        10010 / 10000, 10011 / 10000, 10012 / 10000, 10013 / 10000, 10014 / 10000]) = ''Sideways''"
proof -
  let ?c = "[10000 / 10000, 10001 / 10000, 10002 / 10000, 10003 / 10000, 10004 / 10000,
        10005 / 10000, 10006 / 10000, 10007 / 10000, 10008 / 10000, 10009 / 10000,
        10010 / 10000, 10011 / 10000, 10012 / 10000, 10013 / 10000, 10014 / 10000] :: rat list"
  have "analyze (two_replies (Response 200 (Candles ?c)) (Raised [])) ''btcusdt'' ''1h'' =
     (\<lparr>sent = [first_request ''BTCUSDT'' ''1h'' 200], last_error = None\<rparr>,
      Inr (build_response ''BTCUSDT'' ''1h'' ?c))"
    using example_analyze [of ?c "Raised []" "''btcusdt''" "''1h''"]
    by (simp only: upper_btcusdt list.distinct not_False_eq_True simp_thms)
  moreover have "last (ewm_mean 50 ?c) < last (ewm_mean 20 ?c)" by code_simp
  moreover have "last (calculate_rsi ?c 14) = Fin 100" by code_simp
  moreover have "trend (build_response ''BTCUSDT'' ''1h'' ?c) = ''Sideways''" by code_simp
  ultimately show ?thesis by blast
qed

text \<open>
  Claim C6, as the code has it. The \<^verbatim>\<open>interval\<close> of the response is the interval of
  the request as it came in. Every request that was sent carries the normalized
  interval, and the two are the same exactly when the interval of the request is in the
  allowed list.
\<close>

theorem response_interval_echo:
  "analyze net symb iv = (st, Inr r) \<Longrightarrow>
   interval r = iv \<and>
   (\<forall>rq \<in> set (sent st). req_interval rq = normalize_interval iv) \<and>
   (interval r = normalize_interval iv \<longleftrightarrow> iv \<in> set ALLOWED_INTERVALS)"
proof -
  assume a: "analyze net symb iv = (st, Inr r)"
  from analyze_Inr [OF a] have i: "interval r = iv"
    by (auto simp: build_response_def respond_def Let_def)
  have "st = fst (analyze net symb iv)" using a by simp
  then have "\<forall>rq \<in> set (sent st). req_interval rq = normalize_interval iv"
    using analyze_sent by blast
  moreover have "interval r = normalize_interval iv \<longleftrightarrow> iv \<in> set ALLOWED_INTERVALS"
    using i normalize_interval_fixed [of iv] by auto
  ultimately show ?thesis using i by blast
qed

theorem response_interval_echo_witness:
  "analyze (two_replies (Response 200 (Candles [100])) (Raised [])) ''btcusdt'' ''1h'' =
     (\<lparr>sent = [first_request ''BTCUSDT'' ''1h'' 200], last_error = None\<rparr>,
      Inr (build_response ''BTCUSDT'' ''1h'' [100])) \<and>
   interval (build_response ''BTCUSDT'' ''1h'' [100]) = ''1h'' \<and>
   req_interval (first_request ''BTCUSDT'' ''1h'' 200) = normalize_interval ''1h'' \<and>
   ''1h'' \<in> set ALLOWED_INTERVALS"
proof -
  let ?net = "two_replies (Response 200 (Candles [100])) (Raised [])"
  have a: "analyze ?net ''btcusdt'' ''1h'' =
      (\<lparr>sent = [first_request ''BTCUSDT'' ''1h'' 200], last_error = None\<rparr>,
       Inr (build_response ''BTCUSDT'' ''1h'' [100]))"
    using example_analyze [of "[100]" "Raised []" "''btcusdt''" "''1h''"]
    by (simp add: upper_btcusdt)
  from response_interval_echo [OF a] a show ?thesis by (simp add: ALLOWED_INTERVALS_def)
qed

text \<open>
  Claim C6 as it is written fails for the interval \<^verbatim>\<open>2h\<close>: the candles are asked for
  with \<^verbatim>\<open>15m\<close> and the response says \<^verbatim>\<open>2h\<close>.
\<close>

theorem response_interval_counterexample:
  "analyze (two_replies (Response 200 (Candles [100])) (Raised [])) ''btcusdt'' ''2h'' =
     (\<lparr>sent = [first_request ''BTCUSDT'' ''2h'' 200], last_error = None\<rparr>,
      Inr (build_response ''BTCUSDT'' ''2h'' [100])) \<and>
   interval (build_response ''BTCUSDT'' ''2h'' [100]) = ''2h'' \<and>
   ''2h'' \<notin> set ALLOWED_INTERVALS \<and>
   normalize_interval ''2h'' = ''15m'' \<and>
   req_interval (first_request ''BTCUSDT'' ''2h'' 200) = ''15m'' \<and>
   interval (build_response ''BTCUSDT'' ''2h'' [100]) \<noteq> normalize_interval ''2h''"
proof -
  have "analyze (two_replies (Response 200 (Candles [100])) (Raised [])) ''btcusdt'' ''2h'' =
     (\<lparr>sent = [first_request ''BTCUSDT'' ''2h'' 200], last_error = None\<rparr>,
      Inr (build_response ''BTCUSDT'' ''2h'' [100]))"
    using example_analyze [of "[100]" "Raised []" "''btcusdt''" "''2h''"]
    by (simp add: upper_btcusdt)
  moreover have "interval (build_response ''BTCUSDT'' ''2h'' [100]) = ''2h''"
    by (simp add: build_response_def respond_def Let_def)
  moreover have "normalize_interval ''2h'' = ''15m''"
    by (simp add: normalize_interval_def ALLOWED_INTERVALS_def)
  moreover have "''2h'' \<notin> set ALLOWED_INTERVALS" by (simp add: ALLOWED_INTERVALS_def)
  ultimately show ?thesis by (simp add: request_fields)
qed

text \<open>
  Claim C7, as the code has it. The entry is the last close rounded to two decimal
  places, and stop-loss and target are computed from the entry, not from the close
  itself: the float product of the entry with 0.97 and with 1.06 for the interval
  \<^verbatim>\<open>1d\<close>, with 0.98 and with 1.03 otherwise, each rounded to two decimal places as
  numpy rounds. An entry of 100 gives 97 and 106 for \<^verbatim>\<open>1d\<close>, and 98 and 103 for
  \<^verbatim>\<open>15m\<close>. The interval of the request is \<^verbatim>\<open>1d\<close> exactly when the normalized interval
  is.
\<close>

theorem price_levels:
  "analyze net symb iv = (st, Inr r) \<Longrightarrow>
   get_klines net (upper symb) iv 200 = (st', Inr closes) \<Longrightarrow>
   entry r = round2 (last closes) \<and>
   stoploss r = round2 (fmul (entry r) (if iv = ''1d'' then 97 / 100 else 98 / 100)) \<and>
   target r = round2 (fmul (entry r) (if iv = ''1d'' then 106 / 100 else 103 / 100)) \<and>
   (entry r = 100 \<and> iv = ''1d'' \<longrightarrow> stoploss r = 97 \<and> target r = 106) \<and>
   (entry r = 100 \<and> iv = ''15m'' \<longrightarrow> stoploss r = 98 \<and> target r = 103) \<and>
   ((iv = ''1d'') = (normalize_interval iv = ''1d''))"
proof -
  assume a: "analyze net symb iv = (st, Inr r)"
    and g: "get_klines net (upper symb) iv 200 = (st', Inr closes)"
  from analyze_unique [OF a g] have r: "r = build_response (upper symb) iv closes" by simp
  have e: "entry r = round2 (last closes)"
    and s: "stoploss r = round2 (fmul (entry r) (if iv = ''1d'' then 97 / 100 else 98 / 100))"
    and t: "target r = round2 (fmul (entry r) (if iv = ''1d'' then 106 / 100 else 103 / 100))"
    unfolding r by (simp_all add: build_response_def respond_def Let_def)
  have n: "(iv = ''1d'') = (normalize_interval iv = ''1d'')"
    by (auto simp: normalize_interval_def ALLOWED_INTERVALS_def)
  have "entry r = 100 \<and> iv = ''1d'' \<longrightarrow> stoploss r = 97 \<and> target r = 106"
    using s t round2_examples by auto
  moreover have "entry r = 100 \<and> iv = ''15m'' \<longrightarrow> stoploss r = 98 \<and> target r = 103"
    using s t round2_examples by auto
  ultimately show ?thesis using e s t n by blast
qed

theorem price_levels_witness:
  "analyze (two_replies (Response 200 (Candles [99, 100])) (Raised [])) ''btcusdt'' ''1d'' =
     (\<lparr>sent = [first_request ''BTCUSDT'' ''1d'' 200], last_error = None\<rparr>,
      Inr (build_response ''BTCUSDT'' ''1d'' [99, 100])) \<and>
   entry (build_response ''BTCUSDT'' ''1d'' [99, 100]) = 100 \<and>
   stoploss (build_response ''BTCUSDT'' ''1d'' [99, 100]) = 97 \<and>
   target (build_response ''BTCUSDT'' ''1d'' [99, 100]) = 106"
proof -
  let ?net = "two_replies (Response 200 (Candles [99, 100])) (Raised [])"
  let ?st = "\<lparr>sent = [first_request ''BTCUSDT'' ''1d'' 200], last_error = None\<rparr>"
  let ?r = "build_response ''BTCUSDT'' ''1d'' [99, 100]"
  have a: "analyze ?net ''btcusdt'' ''1d'' = (?st, Inr ?r)"
    using example_analyze [of "[99, 100]" "Raised []" "''btcusdt''" "''1d''"]
    by (simp add: upper_btcusdt)
  have g: "get_klines ?net (upper ''btcusdt'') ''1d'' 200 = (?st, Inr [99, 100])"
    using example_fetch [of "[99, 100]" "Raised []" "''BTCUSDT''" "''1d''" 200]
    by (simp add: upper_btcusdt)
  note t = price_levels [OF a g]
  have "round2 100 = 100" by code_simp
  with t have e: "entry ?r = 100" by simp
  with t have "stoploss ?r = 97 \<and> target ?r = 106" by blast
  with a e show ?thesis by blast
qed

text \<open>
  Claim C7 as it is written, with the last close itself as the price, fails for a last
  close of 0.7649 and the interval \<^verbatim>\<open>15m\<close>: the entry is 0.76 and the stop-loss 0.74,
  and 0.7649 times 0.98 rounds to 0.75.
\<close>

theorem price_levels_counterexample:
  "analyze (two_replies (Response 200 (Candles [7649 / 10000])) (Raised [])) ''dogeusdt'' ''15m'' =
     (\<lparr>sent = [first_request ''DOGEUSDT'' ''15m'' 200], last_error = None\<rparr>,
      Inr (build_response ''DOGEUSDT'' ''15m'' [7649 / 10000])) \<and>
   entry (build_response ''DOGEUSDT'' ''15m'' [7649 / 10000]) = 76 / 100 \<and>
   stoploss (build_response ''DOGEUSDT'' ''15m'' [7649 / 10000]) = 74 / 100 \<and>
   round2 (fmul (7649 / 10000) (98 / 100)) = 75 / 100"
proof -
  have "analyze (two_replies (Response 200 (Candles [7649 / 10000])) (Raised []))
      ''dogeusdt'' ''15m'' =
     (\<lparr>sent = [first_request ''DOGEUSDT'' ''15m'' 200], last_error = None\<rparr>,
      Inr (build_response ''DOGEUSDT'' ''15m'' [7649 / 10000]))"
    using example_analyze [of "[7649 / 10000]" "Raised []" "''dogeusdt''" "''15m''"]
    by (simp add: upper_dogeusdt)
  moreover have "entry (build_response ''DOGEUSDT'' ''15m'' [7649 / 10000]) = 76 / 100"
    by code_simp
  moreover have "stoploss (build_response ''DOGEUSDT'' ''15m'' [7649 / 10000]) = 74 / 100"
    by code_simp
  moreover have "round2 (fmul (7649 / 10000) (98 / 100)) = 75 / 100"
    by code_simp
  ultimately show ?thesis by blast
qed

text \<open>
  Claim C8, as the code has it. Entry, stop-loss and target have at most two decimal
  places, and so has every number put into the confidence and the explanation. The
  four lists are the last 30 values of the closes and of the three series as they are,
  not rounded.
\<close>

theorem response_rounding:
  "analyze net symb iv = (st, Inr r) \<Longrightarrow>
   get_klines net (upper symb) iv 200 = (st', Inr closes) \<Longrightarrow>
   two_decimals (entry r) \<and> two_decimals (stoploss r) \<and> two_decimals (target r) \<and>
   list_all piece_two_decimals (confidence r) \<and>
   list_all piece_two_decimals (explanation r) \<and>
   prices r = tail 30 closes \<and>
   ema20_list r = tail 30 (ewm_mean 20 closes) \<and>
   ema50_list r = tail 30 (ewm_mean 50 closes) \<and>
   rsi_list r = tail 30 (calculate_rsi closes 14)"
proof -
  assume a: "analyze net symb iv = (st, Inr r)"
    and g: "get_klines net (upper symb) iv 200 = (st', Inr closes)"
  from analyze_unique [OF a g]
  have ne: "closes \<noteq> []" and r: "r = build_response (upper symb) iv closes" by simp_all
  from last_calculate_rsi [OF ne, of 14] obtain y where y: "last (calculate_rsi closes 14) = Fin y"
    by blast
  show ?thesis
    unfolding r
    by (simp add: build_response_def respond_def Let_def y two_decimals_round2 explanation_two_decimals)
qed

theorem response_rounding_witness:
  "analyze (two_replies (Response 200 (Candles [1234 / 1000])) (Raised [])) ''btcusdt'' ''1h'' =
     (\<lparr>sent = [first_request ''BTCUSDT'' ''1h'' 200], last_error = None\<rparr>,
      Inr (build_response ''BTCUSDT'' ''1h'' [1234 / 1000])) \<and>
   two_decimals (entry (build_response ''BTCUSDT'' ''1h'' [1234 / 1000])) \<and>
   prices (build_response ''BTCUSDT'' ''1h'' [1234 / 1000]) = tail 30 [1234 / 1000]"
proof -
  let ?net = "two_replies (Response 200 (Candles [1234 / 1000])) (Raised [])"
  let ?st = "\<lparr>sent = [first_request ''BTCUSDT'' ''1h'' 200], last_error = None\<rparr>"
  have a: "analyze ?net ''btcusdt'' ''1h'' = (?st, Inr (build_response ''BTCUSDT'' ''1h'' [1234 / 1000]))"
    using example_analyze [of "[1234 / 1000]" "Raised []" "''btcusdt''" "''1h''"]
    by (simp add: upper_btcusdt)
  have g: "get_klines ?net (upper ''btcusdt'') ''1h'' 200 = (?st, Inr [1234 / 1000])"
    using example_fetch [of "[1234 / 1000]" "Raised []" "''BTCUSDT''" "''1h''" 200]
    by (simp add: upper_btcusdt)
  from response_rounding [OF a g] a show ?thesis by blast
qed

text \<open>
  Claim C8 as it is written fails for a single close of 1.234: the lists of prices and
  of the first moving average hold 1.234, which rounds to 1.23.
\<close>

theorem response_rounding_counterexample:
  "analyze (two_replies (Response 200 (Candles [1234 / 1000])) (Raised [])) ''btcusdt'' ''1h'' =
     (\<lparr>sent = [first_request ''BTCUSDT'' ''1h'' 200], last_error = None\<rparr>,
      Inr (build_response ''BTCUSDT'' ''1h'' [1234 / 1000])) \<and>
   prices (build_response ''BTCUSDT'' ''1h'' [1234 / 1000]) = [1234 / 1000] \<and>
   ema20_list (build_response ''BTCUSDT'' ''1h'' [1234 / 1000]) = [1234 / 1000] \<and>
   round2 (1234 / 1000) = 123 / 100 \<and>
   \<not> two_decimals (1234 / 1000)"
proof -
  have "analyze (two_replies (Response 200 (Candles [1234 / 1000])) (Raised [])) ''btcusdt'' ''1h'' =
     (\<lparr>sent = [first_request ''BTCUSDT'' ''1h'' 200], last_error = None\<rparr>,
      Inr (build_response ''BTCUSDT'' ''1h'' [1234 / 1000]))"
    using example_analyze [of "[1234 / 1000]" "Raised []" "''btcusdt''" "''1h''"]
    by (simp add: upper_btcusdt)
  moreover have "prices (build_response ''BTCUSDT'' ''1h'' [1234 / 1000]) = [1234 / 1000]"
    by code_simp
  moreover have "ema20_list (build_response ''BTCUSDT'' ''1h'' [1234 / 1000]) = [1234 / 1000]"
    by code_simp
  moreover have "round2 (1234 / 1000) = 123 / 100" by code_simp
  moreover have "\<not> two_decimals (1234 / 1000)" by code_simp
  ultimately show ?thesis by blast
qed

text \<open>
  Claim C9. When the reply that \<^verbatim>\<open>get_klines\<close> takes holds no candle, \<^verbatim>\<open>analyze\<close> fails
  at its first read of the last close with an IndexError, which is not the
  HTTPException of a failed fetch and not a response.
\<close>

theorem empty_candles_unhandled:
  "accepted (net (first_request (upper symb) iv 200)) = Some [] \<or>
   accepted (net (first_request (upper symb) iv 200)) = None \<and>
   accepted (net (second_request (upper symb) iv 200)) = Some [] \<Longrightarrow>
   snd (get_klines net (upper symb) iv 200) = Inr [] \<and>
   snd (analyze net symb iv) = Inl IndexError \<and>
   (\<forall>code detail. snd (analyze net symb iv) \<noteq> Inl (HTTPException code detail)) \<and>
   (\<forall>r. snd (analyze net symb iv) \<noteq> Inr r)"
proof -
  assume "accepted (net (first_request (upper symb) iv 200)) = Some [] \<or>
    accepted (net (first_request (upper symb) iv 200)) = None \<and>
    accepted (net (second_request (upper symb) iv 200)) = Some []"
  then have g: "snd (get_klines net (upper symb) iv 200) = Inr []"
    by (auto simp: get_klines_result)
  then have "snd (analyze net symb iv) = Inl IndexError"
    by (cases "get_klines net (upper symb) iv 200") (simp add: analyze_def)
  with g show ?thesis by simp
qed

theorem empty_candles_unhandled_witness:
  "accepted (two_replies (Response 200 (Candles [])) (Raised [])
      (first_request (upper ''btcusdt'') ''1h'' 200)) = Some [] \<and>
   snd (analyze (two_replies (Response 200 (Candles [])) (Raised [])) ''btcusdt'' ''1h'') =
     Inl IndexError"
proof -
  let ?net = "two_replies (Response 200 (Candles [])) (Raised [])"
  have h: "accepted (?net (first_request (upper ''btcusdt'') ''1h'' 200)) = Some []" by simp
  then have "accepted (?net (first_request (upper ''btcusdt'') ''1h'' 200)) = Some [] \<or>
    accepted (?net (first_request (upper ''btcusdt'') ''1h'' 200)) = None \<and>
    accepted (?net (second_request (upper ''btcusdt'') ''1h'' 200)) = Some []" ..
  from empty_candles_unhandled [OF this] h show ?thesis by blast
qed

text \<open>
  Claim C10. In a response over \<open>n\<close> candles the four lists have the same length
  \<open>min 30 n\<close>, which is not 0, the three series are as long as the closes, and position
  \<open>i\<close> of each list is position \<open>n - min 30 n + i\<close> of the closes or of its series.
\<close>

theorem response_windows_aligned:
  "analyze net symb iv = (st, Inr r) \<Longrightarrow>
   get_klines net (upper symb) iv 200 = (st', Inr closes) \<Longrightarrow>
   (let n = length closes; m = min 30 n
    in 0 < m \<and>
       length (prices r) = m \<and> length (ema20_list r) = m \<and>
       length (ema50_list r) = m \<and> length (rsi_list r) = m \<and>
       length (ewm_mean 20 closes) = n \<and> length (ewm_mean 50 closes) = n \<and>
       length (calculate_rsi closes 14) = n \<and>
       (\<forall>i<m. prices r ! i = closes ! (n - m + i) \<and>
               ema20_list r ! i = ewm_mean 20 closes ! (n - m + i) \<and>
               ema50_list r ! i = ewm_mean 50 closes ! (n - m + i) \<and>
               rsi_list r ! i = calculate_rsi closes 14 ! (n - m + i)))"
proof -
  assume a: "analyze net symb iv = (st, Inr r)"
    and g: "get_klines net (upper symb) iv 200 = (st', Inr closes)"
  from analyze_unique [OF a g]
  have ne: "closes \<noteq> []" and r: "r = build_response (upper symb) iv closes" by simp_all
  have f: "prices r = tail 30 closes" "ema20_list r = tail 30 (ewm_mean 20 closes)"
    "ema50_list r = tail 30 (ewm_mean 50 closes)" "rsi_list r = tail 30 (calculate_rsi closes 14)"
    unfolding r by (simp_all add: build_response_def respond_def Let_def)
  have l: "length (ewm_mean 20 closes) = length closes" "length (ewm_mean 50 closes) = length closes"
    "length (calculate_rsi closes 14) = length closes"
    by (simp_all add: length_ewm_mean length_calculate_rsi)
  have "0 < min 30 (length closes)" using ne by simp
  moreover have "\<forall>i<min 30 (length closes).
      prices r ! i = closes ! (length closes - min 30 (length closes) + i) \<and>
      ema20_list r ! i = ewm_mean 20 closes ! (length closes - min 30 (length closes) + i) \<and>
      ema50_list r ! i = ewm_mean 50 closes ! (length closes - min 30 (length closes) + i) \<and>
      rsi_list r ! i = calculate_rsi closes 14 ! (length closes - min 30 (length closes) + i)"
    using tail_nth [of _ 30 closes] tail_nth [of _ 30 "ewm_mean 20 closes"]
      tail_nth [of _ 30 "ewm_mean 50 closes"] tail_nth [of _ 30 "calculate_rsi closes 14"]
    by (simp add: f l)
  ultimately show ?thesis
    unfolding Let_def by (simp add: f l length_tail)
qed

theorem response_windows_aligned_witness:
  "analyze (two_replies (Response 200 (Candles
        [1, 2, 3, 4, 5, 6, 7, 8, 9, 10, 11, 12, 13, 14, 15, 16, 17, 18, 19, 20, 21, 22, 23, 24,
         25, 26, 27, 28, 29, 30, 31])) (Raised [])) ''btcusdt'' ''1h'' =
     (\<lparr>sent = [first_request ''BTCUSDT'' ''1h'' 200], last_error = None\<rparr>,
      Inr (build_response ''BTCUSDT'' ''1h''
        [1, 2, 3, 4, 5, 6, 7, 8, 9, 10, 11, 12, 13, 14, 15, 16, 17, 18, 19, 20, 21, 22, 23, 24,
         25, 26, 27, 28, 29, 30, 31])) \<and>
   length (prices (build_response ''BTCUSDT'' ''1h''
        [1, 2, 3, 4, 5, 6, 7, 8, 9, 10, 11, 12, 13, 14, 15, 16, 17, 18, 19, 20, 21, 22, 23, 24,
         25, 26, 27, 28, 29, 30, 31])) = 30 \<and>
   length (rsi_list (build_response ''BTCUSDT'' ''1h''
        [1, 2, 3, 4, 5, 6, 7, 8, 9, 10, 11, 12, 13, 14, 15, 16, 17, 18, 19, 20, 21, 22, 23, 24,
         25, 26, 27, 28, 29, 30, 31])) = 30 \<and>
   prices (build_response ''BTCUSDT'' ''1h''
        [1, 2, 3, 4, 5, 6, 7, 8, 9, 10, 11, 12, 13, 14, 15, 16, 17, 18, 19, 20, 21, 22, 23, 24,
         25, 26, 27, 28, 29, 30, 31]) ! 0 = 2"
proof -
  let ?c = "[1, 2, 3, 4, 5, 6, 7, 8, 9, 10, 11, 12, 13, 14, 15, 16, 17, 18, 19, 20, 21, 22, 23, 24,
         25, 26, 27, 28, 29, 30, 31] :: rat list"
  let ?net = "two_replies (Response 200 (Candles ?c)) (Raised [])"
  let ?st = "\<lparr>sent = [first_request ''BTCUSDT'' ''1h'' 200], last_error = None\<rparr>"
  let ?r = "build_response ''BTCUSDT'' ''1h'' ?c"
  have a: "analyze ?net ''btcusdt'' ''1h'' = (?st, Inr ?r)"
    using example_analyze [of ?c "Raised []" "''btcusdt''" "''1h''"] by (simp add: upper_btcusdt)
  have g: "get_klines ?net (upper ''btcusdt'') ''1h'' 200 = (?st, Inr ?c)"
    using example_fetch [of ?c "Raised []" "''BTCUSDT''" "''1h''" 200] by (simp add: upper_btcusdt)
  have n: "length ?c = 31" by simp
  note t = response_windows_aligned [OF a g, unfolded Let_def n]
  have m: "min 30 (31::nat) = 30" by simp
  from t have 1: "length (prices ?r) = 30" and 2: "length (rsi_list ?r) = 30"
    unfolding m by blast+
  from t have q: "\<And>i. i < 30 \<Longrightarrow> prices ?r ! i = ?c ! (31 - 30 + i)"
    unfolding m by blast
  have "prices ?r ! 0 = ?c ! (31 - 30 + 0)" by (rule q) simp
  then have 3: "prices ?r ! 0 = 2" by simp
  from a 1 2 3 show ?thesis by blast
qed

end
